theory Spec2Isabelle
  imports Main "HOL-Library.Sublist"
begin

section \<open>Text of a plate: \<^verbatim>\<open>backend/ocr_processor.py\<close>\<close>

text \<open>
  A Python \<^verbatim>\<open>str\<close> is modelled as a \<^typ>\<open>string\<close> whose characters are read as the
  code points 0..255 (Latin-1); \<^verbatim>\<open>len\<close> is \<^const>\<open>length\<close>. The character classes of
  the regular expressions are ranges of code points, as \<^verbatim>\<open>re\<close> reads them.
\<close>

definition code_point :: "char \<Rightarrow> nat" where
  "code_point c = of_char c"

text \<open>\<^verbatim>\<open>[A-Z]\<close> and \<^verbatim>\<open>[0-9]\<close>.\<close>

definition is_AZ :: "char \<Rightarrow> bool" where
  "is_AZ c = (0x41 \<le> code_point c \<and> code_point c \<le> 0x5A)"

definition is_09 :: "char \<Rightarrow> bool" where
  "is_09 c = (0x30 \<le> code_point c \<and> code_point c \<le> 0x39)"

text \<open>
  White space, for \<^verbatim>\<open>str.strip()\<close> and for \<^verbatim>\<open>\s\<close> in a pattern over \<^verbatim>\<open>str\<close>:
  tab to carriage return, the four separators 0x1C..0x1F, the space, NEL and the
  no-break space.
\<close>

definition is_space :: "char \<Rightarrow> bool" where
  "is_space c = (let n = code_point c in
     (0x09 \<le> n \<and> n \<le> 0x0D) \<or> (0x1C \<le> n \<and> n \<le> 0x20) \<or> n = 0x85 \<or> n = 0xA0)"

text \<open>
  \<^verbatim>\<open>str.upper()\<close>, one character at a time: a..z and the accented small letters move
  down by 0x20, the sharp s becomes \<^verbatim>\<open>SS\<close>. The capitals of the micro sign and of
  y-diaeresis lie beyond code point 255; they are left in place here, which the cleaning
  cannot tell apart, since it deletes them and their capitals alike.
\<close>

definition upper_char :: "char \<Rightarrow> string" where
  "upper_char c = (let n = code_point c in
     if 0x61 \<le> n \<and> n \<le> 0x7A then [char_of (n - 0x20)]
     else if n = 0xDF then ''SS''
     else if 0xE0 \<le> n \<and> n \<le> 0xFE \<and> n \<noteq> 0xF7 then [char_of (n - 0x20)]
     else [c])"

definition upper :: "string \<Rightarrow> string" where
  "upper s = concat (map upper_char s)"

definition strip :: "string \<Rightarrow> string" where
  "strip s = rev (dropWhile is_space (rev (dropWhile is_space s)))"

text \<open>\<^verbatim>\<open>re.sub(r'[^A-Z0-9-]', '', text)\<close>\<close>

definition plate_char :: "char \<Rightarrow> bool" where
  "plate_char c = (is_AZ c \<or> is_09 c \<or> c = CHR ''-'')"

definition sub_invalid :: "string \<Rightarrow> string" where
  "sub_invalid s = filter plate_char s"

text \<open>\<^verbatim>\<open>re.sub(r'-+', '-', cleaned)\<close>: every run of hyphens becomes one hyphen.\<close>

fun sub_hyphens :: "string \<Rightarrow> string" where
  "sub_hyphens [] = []"
| "sub_hyphens [c] = [c]"
| "sub_hyphens (c # d # cs) =
     (if c = CHR ''-'' \<and> d = CHR ''-'' then sub_hyphens (d # cs)
      else c # sub_hyphens (d # cs))"

text \<open>\<^verbatim>\<open>re.sub(r'[-\s]', '', text)\<close>\<close>

definition sub_separators :: "string \<Rightarrow> string" where
  "sub_separators s = filter (\<lambda>c. \<not> (c = CHR ''-'' \<or> is_space c)) s"

text \<open>
  The six patterns are sequences of the two classes. \<^verbatim>\<open>re.match\<close> of
  \<^verbatim>\<open>^...$\<close> succeeds on a text that is the sequence, or the sequence followed by one
  final line feed (\<^verbatim>\<open>$\<close> also matches just before it).
\<close>

datatype cls = Letter | Digit

fun in_cls :: "cls \<Rightarrow> char \<Rightarrow> bool" where
  "in_cls Letter c = is_AZ c"
| "in_cls Digit c = is_09 c"

definition re_match :: "cls list \<Rightarrow> string \<Rightarrow> bool" where
  "re_match p s =
     (list_all2 in_cls p s \<or>
      (case rev s of [] \<Rightarrow> False
       | c # r \<Rightarrow> c = CHR 0x0A \<and> list_all2 in_cls p (rev r)))"

definition LLLDDD :: "cls list" where
  "LLLDDD = [Letter, Letter, Letter, Digit, Digit, Digit]"

definition LDLDDD :: "cls list" where
  "LDLDDD = [Letter, Digit, Letter, Digit, Digit, Digit]"

definition patterns :: "cls list list" where
  "patterns =
     [LLLDDD,
      LDLDDD,
      [Letter, Letter, Digit, Digit, Digit, Digit],
      [Letter, Letter, Letter, Letter, Digit, Digit],
      [Letter, Digit, Digit, Letter, Digit, Digit],
      [Digit, Digit, Digit, Letter, Letter, Letter]]"

definition is_valid_peruvian_plate :: "string \<Rightarrow> bool" where
  "is_valid_peruvian_plate text =
     (if text = [] \<or> length text < 5 then False
      else let clean = sub_separators text in
        if length clean < 5 \<or> length clean > 8 then False
        else list_ex (\<lambda>pattern. re_match pattern clean) patterns)"

definition format_plate :: "string \<Rightarrow> string" where
  "format_plate text =
     (let clean = sub_separators text in
      if length clean = 6 \<and> (re_match LLLDDD clean \<or> re_match LDLDDD clean)
      then take 3 clean @ ''-'' @ drop 3 clean
      else clean)"

text \<open>
  \<^verbatim>\<open>wrong in cleaned\<close> and \<^verbatim>\<open>cleaned.replace(wrong, right)\<close>: the occurrences are
  replaced from the left, without overlap. Every \<^verbatim>\<open>wrong\<close> of the table has two
  characters; on an empty one the model replaces nothing.
\<close>

fun contains :: "string \<Rightarrow> string \<Rightarrow> bool" where
  "contains [] w = (w = [])"
| "contains (c # cs) w = (prefix w (c # cs) \<or> contains cs w)"

function replace :: "string \<Rightarrow> string \<Rightarrow> string \<Rightarrow> string" where
  "replace [] wrong right = []"
| "replace (c # cs) wrong right =
     (if wrong \<noteq> [] \<and> prefix wrong (c # cs)
      then right @ replace (drop (length wrong) (c # cs)) wrong right
      else c # replace cs wrong right)"
  by pat_completeness auto
termination
  by (relation "measure (\<lambda>(s, wrong, right). length s)") (auto simp: neq_Nil_conv)

definition corrections :: "(string \<times> string) list" where
  "corrections =
     [(''O0'', ''00''), (''0O'', ''00''), (''II'', ''11''), (''OO'', ''00''),
      (''B8'', ''B8''), (''8B'', ''8B''), (''S5'', ''S5''), (''5S'', ''5S'')]"

definition char_corrections :: "char \<Rightarrow> char option" where
  "char_corrections = map_of
     [(CHR ''O'', CHR ''0''), (CHR ''0'', CHR ''O''),
      (CHR ''I'', CHR ''1''), (CHR ''1'', CHR ''I''),
      (CHR ''S'', CHR ''5''), (CHR ''5'', CHR ''S''),
      (CHR ''B'', CHR ''8''), (CHR ''8'', CHR ''B''),
      (CHR ''Z'', CHR ''2''), (CHR ''2'', CHR ''Z''),
      (CHR ''G'', CHR ''6''), (CHR ''6'', CHR ''G'')]"

text \<open>The first loop: the corrected texts of the table's entries that occur, in order.\<close>

definition corrected_candidates :: "string \<Rightarrow> string list" where
  "corrected_candidates cleaned =
     map (\<lambda>(wrong, right). replace cleaned wrong right)
       (filter (\<lambda>(wrong, right). contains cleaned wrong) corrections)"

text \<open>The second loop: the text itself, then one variation for each position that has a partner.\<close>

definition variations :: "string \<Rightarrow> string list" where
  "variations cleaned =
     cleaned # concat (map (\<lambda>i.
        case char_corrections (cleaned ! i) of
          None \<Rightarrow> []
        | Some r \<Rightarrow> [take i cleaned @ [r] @ drop (Suc i) cleaned])
       [0..<length cleaned])"

definition cleaned_of :: "string \<Rightarrow> string" where
  "cleaned_of text = sub_hyphens (sub_invalid (strip (upper text)))"

definition clean_text :: "string \<Rightarrow> string" where
  "clean_text text =
     (if text = [] then []
      else let cleaned = cleaned_of text in
        if length cleaned < 5 \<or> length cleaned > 9 then []
        else if is_valid_peruvian_plate cleaned then format_plate cleaned
        else case find is_valid_peruvian_plate (corrected_candidates cleaned) of
          Some test_corrected \<Rightarrow> format_plate test_corrected
        | None \<Rightarrow>
           (case find is_valid_peruvian_plate (variations cleaned) of
              Some variation \<Rightarrow> format_plate variation
            | None \<Rightarrow> if 5 \<le> length cleaned \<and> length cleaned \<le> 8 then cleaned else []))"

section \<open>Deduplication: \<^verbatim>\<open>backend/database.py\<close>\<close>

text \<open>
  A naive \<^verbatim>\<open>datetime\<close> is the number of microseconds since a fixed origin, a
  \<^verbatim>\<open>timedelta\<close> a number of microseconds; Python keeps both exactly.
  \<^verbatim>\<open>timedelta.seconds\<close> is the seconds field of the normalised triple (days, seconds,
  microseconds), between 0 and 86399; \<^verbatim>\<open>total_seconds()\<close> is the whole duration.
\<close>

type_synonym datetime = int
type_synonym timedelta = int

definition seconds :: "int \<Rightarrow> timedelta" where
  "seconds n = n * 1000000"

definition td_seconds :: "timedelta \<Rightarrow> int" where
  "td_seconds d = (d div 1000000) mod 86400"

text \<open>
  \<^verbatim>\<open>d.total_seconds() < dedup_seconds\<close> with an integer on the right compares the
  microseconds with the whole seconds (the quotient is rounded correctly and the windows are
  far below the precision of a double).
\<close>

definition total_seconds_less :: "timedelta \<Rightarrow> int \<Rightarrow> bool" where
  "total_seconds_less d n = (d < seconds n)"

text \<open>
  \<^verbatim>\<open>strftime("%Y-%m-%d %H:%M:%S")\<close> drops the microseconds. The text is stood for by
  the count of whole seconds: for the four-digit years the fixed-width texts are ordered, as
  SQLite compares them, the way these counts are.
\<close>

definition strftime :: "datetime \<Rightarrow> int" where
  "strftime t = t div 1000000"

record plate_row =
  row_plate_text :: string
  row_timestamp :: int
  row_camera_source :: string
  row_image_path :: "string option"
  row_image_base64 :: "string option"

text \<open>The module's state: the dictionary \<^verbatim>\<open>plate_cache\<close> and the table \<^verbatim>\<open>plates\<close>.\<close>

record dedup_state =
  plate_cache :: "string \<rightharpoonup> datetime"
  plates :: "plate_row list"

text \<open>
  What one call of \<^verbatim>\<open>add_plate_reading\<close> takes from outside: the clock read by
  \<^verbatim>\<open>cleanup_cache\<close>, the clock read next by the function itself, and whether SQLite
  raises \<^verbatim>\<open>sqlite3.Error\<close> in the \<^verbatim>\<open>try\<close> block.
\<close>

record clock =
  sweep_now :: datetime
  now :: datetime
  sqlite_error :: bool

definition cleanup_cache :: "datetime \<Rightarrow> (string \<rightharpoonup> datetime) \<Rightarrow> (string \<rightharpoonup> datetime)" where
  "cleanup_cache current_time cache =
     (\<lambda>key. case cache key of
         None \<Rightarrow> None
       | Some timestamp \<Rightarrow>
           if td_seconds (current_time - timestamp) > 60 then None else Some timestamp)"

definition clear_dedup_cache :: "dedup_state \<Rightarrow> dedup_state" where
  "clear_dedup_cache s = s\<lparr>plate_cache := Map.empty\<rparr>"

definition cache_key_of :: "string \<Rightarrow> string \<Rightarrow> string" where
  "cache_key_of plate_text camera_source = plate_text @ ''_'' @ camera_source"

definition recent_count :: "string \<Rightarrow> string \<Rightarrow> int \<Rightarrow> plate_row list \<Rightarrow> nat" where
  "recent_count plate_text camera_source limit_timestamp rows =
     length (filter (\<lambda>r. row_plate_text r = plate_text
                        \<and> row_camera_source r = camera_source
                        \<and> row_timestamp r > limit_timestamp) rows)"

definition insert_row ::
  "string \<Rightarrow> string \<Rightarrow> string option \<Rightarrow> string option \<Rightarrow> datetime \<Rightarrow> string
    \<Rightarrow> (string \<rightharpoonup> datetime) \<Rightarrow> dedup_state \<Rightarrow> bool \<times> dedup_state" where
  "insert_row plate_text camera_source image_path image_base64 current_time cache_key cache s =
     (True,
      s\<lparr>plate_cache := cache(cache_key \<mapsto> current_time),
        plates := plates s @
          [\<lparr>row_plate_text = plate_text, row_timestamp = strftime current_time,
            row_camera_source = camera_source, row_image_path = image_path,
            row_image_base64 = image_base64\<rparr>]\<rparr>)"

text \<open>
  The result is the returned boolean and the state after the call. The sweep comes after the
  guard on an empty text and before everything else; a \<^verbatim>\<open>sqlite3.Error\<close> leads to
  \<^verbatim>\<open>return False\<close> with the cache as the sweep left it and nothing committed.
\<close>

definition add_plate_reading ::
  "string \<Rightarrow> string \<Rightarrow> string option \<Rightarrow> string option \<Rightarrow> int \<Rightarrow> clock
    \<Rightarrow> dedup_state \<Rightarrow> bool \<times> dedup_state" where
  "add_plate_reading plate_text camera_source image_path image_base64 dedup_seconds env s =
     (if plate_text = [] \<or> strip plate_text = [] then (False, s)
      else
        let cache = cleanup_cache (sweep_now env) (plate_cache s);
            current_time = now env;
            cache_key = cache_key_of plate_text camera_source
        in case cache cache_key of
             Some cached \<Rightarrow>
               if total_seconds_less (current_time - cached) dedup_seconds
               then (False, s\<lparr>plate_cache := cache\<rparr>)
               else if sqlite_error env then (False, s\<lparr>plate_cache := cache\<rparr>)
               else insert_row plate_text camera_source image_path image_base64
                      current_time cache_key cache s
           | None \<Rightarrow>
               if sqlite_error env then (False, s\<lparr>plate_cache := cache\<rparr>)
               else
                 let limit_timestamp = strftime (current_time - seconds dedup_seconds)
                 in if recent_count plate_text camera_source limit_timestamp (plates s) > 0
                    then (False, s\<lparr>plate_cache := cache(cache_key \<mapsto> current_time)\<rparr>)
                    else insert_row plate_text camera_source image_path image_base64
                           current_time cache_key cache s)"

text \<open>A clock that reads \<open>t\<close> both times, over a database that answers.\<close>

definition clock_at :: "datetime \<Rightarrow> clock" where
  "clock_at t = \<lparr>sweep_now = t, now = t, sqlite_error = False\<rparr>"

text \<open>The state after \<^verbatim>\<open>init_db\<close> on a new file: no row, an empty cache.\<close>

definition initial_state :: dedup_state where
  "initial_state = \<lparr>plate_cache = Map.empty, plates = []\<rparr>"

text \<open>
  The state after a restart of the server: the cache is empty again, the table still holds
  the row of \<^verbatim>\<open>ABC-123\<close> that the webcam gave at second \<open>t\<close>.
\<close>

definition stored_row :: "int \<Rightarrow> plate_row" where
  "stored_row t =
     \<lparr>row_plate_text = ''ABC-123'', row_timestamp = t, row_camera_source = ''webcam'',
      row_image_path = None, row_image_base64 = None\<rparr>"

definition restarted_state :: "int \<Rightarrow> dedup_state" where
  "restarted_state t = \<lparr>plate_cache = Map.empty, plates = [stored_row t]\<rparr>"

section \<open>Video sources: \<^verbatim>\<open>backend/camera_manager.py\<close>\<close>

text \<open>
  OpenCV is outside the program: the model takes it as a record of functions over a type
  \<open>'c\<close> of capture objects and a type \<open>'f\<close> of frames. \<open>read\<close> gives the frame
  (\<open>None\<close> when \<^verbatim>\<open>success\<close> is false) and the capture object after the read;
  \<open>downscale\<close> is the resizing of a read frame to at most 800 columns.
\<close>

type_synonym endpoint = "int + string"

record ('c, 'f) cv2 =
  VideoCapture :: "endpoint \<Rightarrow> 'c"
  isOpened :: "'c \<Rightarrow> bool"
  read :: "'c \<Rightarrow> 'f option \<times> 'c"
  downscale :: "'f \<Rightarrow> 'f"

definition CAMERA_SOURCES :: "string \<rightharpoonup> endpoint" where
  "CAMERA_SOURCES = map_of
     [(''webcam'', Inl 0),
      (''ip_cam_cellphone'', Inr ''http://10.244.244.82:8080/video'')]"

text \<open>
  The manager's two fields, and two logs that the program does not keep: the capture
  objects released so far and the arguments of the calls of \<^verbatim>\<open>select_source\<close> so far.
\<close>

record 'c camera_manager =
  active_source :: "string option"
  current_cap :: "'c option"
  released :: "'c list"
  selected :: "string option list"

definition release_current_source :: "'c camera_manager \<Rightarrow> 'c camera_manager" where
  "release_current_source s =
     (case current_cap s of
        None \<Rightarrow> s
      | Some cap \<Rightarrow> s\<lparr>current_cap := None, active_source := None,
                       released := released s @ [cap]\<rparr>)"

text \<open>
  \<^verbatim>\<open>source_name\<close> is an optional string: \<^verbatim>\<open>get_frame\<close> passes
  \<^verbatim>\<open>self.active_source\<close>, and \<^verbatim>\<open>None\<close> is not a key of the configuration. The
  one-second sleep for an address that starts with \<^verbatim>\<open>http\<close> changes no state.
\<close>

definition select_source ::
  "('c, 'f) cv2 \<Rightarrow> string option \<Rightarrow> 'c camera_manager \<Rightarrow> bool \<times> 'c camera_manager" where
  "select_source cv source_name s0 =
     (let s = s0\<lparr>selected := selected s0 @ [source_name]\<rparr> in
      case (case source_name of None \<Rightarrow> None | Some n \<Rightarrow> CAMERA_SOURCES n) of
        None \<Rightarrow> (False, s)
      | Some source_path \<Rightarrow>
          if active_source s = source_name
             \<and> (case current_cap s of None \<Rightarrow> False | Some c \<Rightarrow> isOpened cv c)
          then (True, s)
          else
            let s' = release_current_source s;
                cap = VideoCapture cv source_path
            in if \<not> isOpened cv cap
               then (False, s'\<lparr>current_cap := None, active_source := None\<rparr>)
               else (True, s'\<lparr>current_cap := Some cap, active_source := source_name\<rparr>))"

definition get_frame ::
  "('c, 'f) cv2 \<Rightarrow> 'c camera_manager \<Rightarrow> (bool \<times> 'f option) \<times> 'c camera_manager" where
  "get_frame cv s =
     (case current_cap s of
        None \<Rightarrow> ((False, None), s)
      | Some c \<Rightarrow>
          if isOpened cv c then
            (case read cv c of
               (None, c') \<Rightarrow>
                 ((False, None),
                  snd (select_source cv (active_source s) (s\<lparr>current_cap := Some c'\<rparr>)))
             | (Some frame, c') \<Rightarrow>
                 ((True, Some (downscale cv frame)), s\<lparr>current_cap := Some c'\<rparr>))
          else ((False, None), s))"

text \<open>
  A small OpenCV for concrete runs: a capture object is its endpoint, whether it is open,
  and the frames it still has (a frame is a number); every endpoint opens, with no frame.
\<close>

definition toy_cv2 :: "(endpoint \<times> bool \<times> nat list, nat) cv2" where
  "toy_cv2 =
     \<lparr>VideoCapture = (\<lambda>path. (path, True, [])),
      isOpened = (\<lambda>(path, opened, frames). opened),
      read = (\<lambda>(path, opened, frames).
                case frames of [] \<Rightarrow> (None, (path, opened, []))
                | f # fs \<Rightarrow> (Some f, (path, opened, fs))),
      downscale = (\<lambda>f. f)\<rparr>"

text \<open>
  A second one, whose link is down: a read with no frame left closes the capture object,
  and no endpoint opens. And the manager with the webcam open over the given frames.
\<close>

definition dropping_cv2 :: "(endpoint \<times> bool \<times> nat list, nat) cv2" where
  "dropping_cv2 =
     \<lparr>VideoCapture = (\<lambda>path. (path, False, [])),
      isOpened = (\<lambda>(path, opened, frames). opened),
      read = (\<lambda>(path, opened, frames).
                case frames of [] \<Rightarrow> (None, (path, False, []))
                | f # fs \<Rightarrow> (Some f, (path, opened, fs))),
      downscale = (\<lambda>f. f)\<rparr>"

definition webcam_open :: "nat list \<Rightarrow> (endpoint \<times> bool \<times> nat list) camera_manager" where
  "webcam_open frames =
     \<lparr>active_source = Some ''webcam'', current_cap = Some (Inl 0, True, frames),
      released = [], selected = []\<rparr>"

section \<open>The vocabulary of the specification\<close>

text \<open>
  The cleaned form of a raw text as the specification words it: uppercased, the characters
  outside \<^verbatim>\<open>[A-Z0-9-]\<close> removed, runs of hyphens collapsed. The grammar is the list of
  shapes of its glossary, read on a code whose separators (hyphens) are removed. A
  well-formed cleaned string is a cleaned form of itself whose length the cleaning step
  accepts (5 to 9).
\<close>

definition cleaned_form :: "string \<Rightarrow> string" where
  "cleaned_form raw = sub_hyphens (filter plate_char (upper raw))"

definition without_separators :: "string \<Rightarrow> string" where
  "without_separators s = filter (\<lambda>c. c \<noteq> CHR ''-'') s"

definition grammar_patterns :: "cls list list" where
  "grammar_patterns =
     [replicate 3 Letter @ replicate 3 Digit,
      [Letter, Digit, Letter] @ replicate 3 Digit,
      replicate 2 Letter @ replicate 4 Digit,
      replicate 4 Letter @ replicate 2 Digit,
      [Letter] @ replicate 2 Digit @ [Letter] @ replicate 2 Digit,
      replicate 3 Digit @ replicate 3 Letter]"

definition matches_grammar :: "string \<Rightarrow> bool" where
  "matches_grammar s = list_ex (\<lambda>p. list_all2 in_cls p s) grammar_patterns"

definition well_formed_cleaned :: "string \<Rightarrow> bool" where
  "well_formed_cleaned c = (cleaned_form c = c \<and> 5 \<le> length c \<and> length c \<le> 9)"

section \<open>The normaliser\<close>

lemma grammar_patterns_eq: "grammar_patterns = patterns"
  by (simp add: grammar_patterns_def patterns_def LLLDDD_def LDLDDD_def numeral_eq_Suc)

lemma is_space_LF: "is_space (CHR 0x0A)"
  by (simp add: is_space_def code_point_def)

lemma plate_char_not_space: "plate_char c \<Longrightarrow> \<not> is_space c"
  by (auto simp: plate_char_def is_space_def is_AZ_def is_09_def code_point_def Let_def)

lemma re_match_no_space:
  assumes "\<And>c. c \<in> set s \<Longrightarrow> \<not> is_space c"
  shows "re_match p s = list_all2 in_cls p s"
proof (cases "rev s")
  case Nil
  then show ?thesis by (simp add: re_match_def)
next
  case (Cons c r)
  then have "c \<in> set s" by (metis list.set_intros(1) set_rev)
  then have "c \<noteq> CHR 0x0A" using assms is_space_LF by blast
  with Cons show ?thesis by (simp add: re_match_def)
qed

lemma re_match_sub_separators:
  "re_match p (sub_separators s) = list_all2 in_cls p (sub_separators s)"
  by (rule re_match_no_space) (simp add: sub_separators_def)

lemma without_sub_separators: "without_separators (sub_separators s) = sub_separators s"
  unfolding without_separators_def sub_separators_def filter_filter
  by (rule filter_cong) auto

lemma list_all2_length6:
  "p \<in> set patterns \<Longrightarrow> list_all2 in_cls p s \<Longrightarrow> length s = 6"
  by (auto simp: patterns_def LLLDDD_def LDLDDD_def dest: list_all2_lengthD)

lemma matches_grammar_length: "matches_grammar s \<Longrightarrow> length s = 6"
  by (auto simp: matches_grammar_def grammar_patterns_eq list_ex_iff dest: list_all2_length6)

lemma valid_matches_grammar:
  "is_valid_peruvian_plate v \<Longrightarrow> matches_grammar (sub_separators v)"
  by (auto simp: is_valid_peruvian_plate_def matches_grammar_def grammar_patterns_eq Let_def
      re_match_sub_separators split: if_splits)

lemma matches_grammar_valid:
  "5 \<le> length v \<Longrightarrow> matches_grammar (sub_separators v) \<Longrightarrow> is_valid_peruvian_plate v"
  using matches_grammar_length [of "sub_separators v"]
  by (auto simp: is_valid_peruvian_plate_def matches_grammar_def grammar_patterns_eq Let_def
      re_match_sub_separators)

lemma without_format_plate:
  "without_separators (format_plate v) = sub_separators v"
proof -
  have "without_separators (take 3 c @ ''-'' @ drop 3 c) = without_separators c" for c
  proof -
    have "without_separators (take 3 c @ ''-'' @ drop 3 c)
        = without_separators (take 3 c) @ without_separators (drop 3 c)"
      by (simp add: without_separators_def)
    also have "\<dots> = without_separators (take 3 c @ drop 3 c)"
      unfolding without_separators_def by (rule filter_append [symmetric])
    finally show ?thesis by simp
  qed
  then show ?thesis
    by (simp add: format_plate_def Let_def without_sub_separators)
qed

lemma format_plate_grammar:
  "is_valid_peruvian_plate v \<Longrightarrow> matches_grammar (without_separators (format_plate v))"
  by (simp add: without_format_plate valid_matches_grammar)

lemma filter_dropWhile_disjoint:
  assumes "\<And>c. Q c \<Longrightarrow> \<not> P c"
  shows "filter P (dropWhile Q s) = filter P s"
  using assms by (induction s) auto

lemma filter_plate_dropWhile:
  "filter plate_char (dropWhile is_space s) = filter plate_char s"
  by (rule filter_dropWhile_disjoint) (use plate_char_not_space in blast)

lemma sub_invalid_strip: "sub_invalid (strip s) = sub_invalid s"
proof -
  have "filter plate_char (rev (dropWhile is_space (rev (dropWhile is_space s))))
      = rev (filter plate_char (dropWhile is_space (rev (dropWhile is_space s))))"
    by (simp add: rev_filter)
  also have "\<dots> = rev (filter plate_char (rev (dropWhile is_space s)))"
    by (simp add: filter_plate_dropWhile)
  also have "\<dots> = filter plate_char (dropWhile is_space s)"
    by (simp add: rev_filter)
  also have "\<dots> = filter plate_char s"
    by (simp add: filter_plate_dropWhile)
  finally show ?thesis by (simp add: sub_invalid_def strip_def)
qed

lemma cleaned_of_eq: "cleaned_of raw = cleaned_form raw"
  by (simp add: cleaned_of_def cleaned_form_def sub_invalid_strip) (simp add: sub_invalid_def)

lemma set_sub_hyphens: "set (sub_hyphens s) \<subseteq> set s"
  by (induction s rule: sub_hyphens.induct) auto

lemma cleaned_form_chars: "c \<in> set (cleaned_form raw) \<Longrightarrow> plate_char c"
  using set_sub_hyphens [of "filter plate_char (upper raw)"]
  by (auto simp: cleaned_form_def)

lemma sub_separators_cleaned:
  assumes "\<And>c. c \<in> set s \<Longrightarrow> plate_char c"
  shows "sub_separators s = without_separators s"
  unfolding sub_separators_def without_separators_def
  by (rule filter_cong) (use assms plate_char_not_space in auto)

subsection \<open>C6: texts that clean to fewer than 5 or more than 9 characters\<close>

text \<open>
  C6. For every raw text whose cleaned form (uppercased, the characters outside
  \<^verbatim>\<open>[A-Z0-9-]\<close> removed, runs of hyphens collapsed) is shorter than 5 or longer than 9,
  \<^verbatim>\<open>clean_text\<close> returns the empty string. The cleaned form is the specification's,
  without the \<^verbatim>\<open>strip()\<close> of the code, which removes nothing the filter would keep.
\<close>

theorem clean_text_length_rejects:
  assumes "length (cleaned_form raw) < 5 \<or> 9 < length (cleaned_form raw)"
  shows "clean_text raw = []"
  using assms by (simp add: clean_text_def cleaned_of_eq Let_def)

text \<open>Two raw texts under the hypothesis of C6: one cleans to 4 characters, one to 11.\<close>

theorem clean_text_length_rejects_witness:
  "length (cleaned_form ''ab 12'') < 5 \<and> clean_text ''ab 12'' = []
   \<and> 9 < length (cleaned_form ''ABCDE-12345'') \<and> clean_text ''ABCDE-12345'' = []"
proof -
  have a: "length (cleaned_form ''ab 12'') < 5" by code_simp
  have b: "9 < length (cleaned_form ''ABCDE-12345'')" by code_simp
  show ?thesis
    using a b clean_text_length_rejects [of "''ab 12''"]
      clean_text_length_rejects [of "''ABCDE-12345''"] by simp
qed

subsection \<open>C7: a code that is already canonical\<close>

text \<open>
  C7. For every code \<open>c\<close> that is a well-formed cleaned string and, with its separators
  removed, matches one of the grammar's shapes, \<^verbatim>\<open>clean_text(c)\<close> is
  \<^verbatim>\<open>format_plate(c)\<close>.
\<close>

theorem clean_text_canonical:
  assumes wf: "well_formed_cleaned c"
    and g: "matches_grammar (without_separators c)"
  shows "clean_text c = format_plate c"
proof -
  from wf have eq: "cleaned_form c = c" and len: "5 \<le> length c" "length c \<le> 9"
    by (simp_all add: well_formed_cleaned_def)
  have chars: "\<And>x. x \<in> set c \<Longrightarrow> plate_char x"
    using cleaned_form_chars [of _ c] eq by simp
  have "sub_separators c = without_separators c"
    using chars by (rule sub_separators_cleaned)
  with g len have "is_valid_peruvian_plate c"
    by (simp add: matches_grammar_valid)
  moreover from len have "c \<noteq> []" by auto
  ultimately show ?thesis
    using len eq by (simp add: clean_text_def cleaned_of_eq Let_def)
qed

text \<open>
  C7 at \<^verbatim>\<open>A1B-234\<close> and at \<^verbatim>\<open>AB1234\<close>: both are well formed and in the grammar; the
  first keeps its hyphen, the second gets none.
\<close>

theorem clean_text_canonical_witness:
  "well_formed_cleaned ''A1B-234'' \<and> matches_grammar (without_separators ''A1B-234'')
   \<and> clean_text ''A1B-234'' = format_plate ''A1B-234'' \<and> format_plate ''A1B-234'' = ''A1B-234''
   \<and> well_formed_cleaned ''AB1234'' \<and> matches_grammar (without_separators ''AB1234'')
   \<and> clean_text ''AB1234'' = format_plate ''AB1234'' \<and> format_plate ''AB1234'' = ''AB1234''"
proof -
  have a: "well_formed_cleaned ''A1B-234''" by code_simp
  have b: "matches_grammar (without_separators ''A1B-234'')" by code_simp
  have c: "format_plate ''A1B-234'' = ''A1B-234''" by code_simp
  have d: "well_formed_cleaned ''AB1234''" by code_simp
  have e: "matches_grammar (without_separators ''AB1234'')" by code_simp
  have f: "format_plate ''AB1234'' = ''AB1234''" by code_simp
  show ?thesis
    using a b c d e f clean_text_canonical [OF a b] clean_text_canonical [OF d e] by simp
qed

text \<open>
  The bound on the length is part of being well formed: \<^verbatim>\<open>A-B-C-1-23\<close> is its own
  cleaned form and is in the grammar once its hyphens are removed, but it has 10 characters,
  so \<^verbatim>\<open>clean_text\<close> rejects it, while \<^verbatim>\<open>format_plate\<close> makes \<^verbatim>\<open>ABC-123\<close> of it.
\<close>

lemma clean_text_ten_characters:
  "cleaned_form ''A-B-C-1-23'' = ''A-B-C-1-23''
   \<and> matches_grammar (without_separators ''A-B-C-1-23'')
   \<and> clean_text ''A-B-C-1-23'' = []
   \<and> format_plate ''A-B-C-1-23'' = ''ABC-123''"
  by code_simp

subsection \<open>C4: what \<^verbatim>\<open>clean_text\<close> returns\<close>

text \<open>
  C4 as written fails: \<^verbatim>\<open>AAAAA\<close> cleans to itself, nothing validates, and the last
  branch of \<^verbatim>\<open>clean_text\<close> returns it as it is, five letters that are in no shape of
  the grammar.
\<close>

theorem clean_text_fallback_counterexample:
  "clean_text ''AAAAA'' = ''AAAAA''
   \<and> \<not> matches_grammar (without_separators (clean_text ''AAAAA''))"
  by code_simp

text \<open>
  C4, amended. For every raw text, the output of \<^verbatim>\<open>clean_text\<close> is the empty string,
  or it matches one of the six shapes once its separators are removed, or it is the
  cleaned text itself, 5 to 8 characters long and not a valid plate (the fallback branch).
\<close>

theorem clean_text_shape:
  "clean_text raw = []
   \<or> matches_grammar (without_separators (clean_text raw))
   \<or> (clean_text raw = cleaned_form raw
      \<and> 5 \<le> length (cleaned_form raw) \<and> length (cleaned_form raw) \<le> 8
      \<and> \<not> is_valid_peruvian_plate (cleaned_form raw))"
  by (auto simp: clean_text_def cleaned_of_eq Let_def format_plate_grammar find_Some_iff
      split: option.splits)

subsection \<open>C8: the text \<^verbatim>\<open>ABC I23\<close>\<close>

text \<open>
  C8 as written fails: \<^verbatim>\<open>clean_text("ABC I23")\<close> is not \<^verbatim>\<open>ABC-123\<close>.
\<close>

theorem clean_text_ABC_I23_counterexample:
  "clean_text ''ABC I23'' \<noteq> ''ABC-123''"
  by code_simp

text \<open>
  C8, amended. Cleaning \<^verbatim>\<open>ABC I23\<close> yields \<^verbatim>\<open>ABCI23\<close>, which is already a valid
  plate (four letters and two digits), so no correction is tried and
  \<^verbatim>\<open>clean_text\<close> returns \<^verbatim>\<open>ABCI23\<close>, which \<^verbatim>\<open>format_plate\<close> leaves without a
  hyphen. The variant with 1 for I is the third of the variations, after the text
  itself, and would have been formatted to \<^verbatim>\<open>ABC-123\<close>.
\<close>

theorem clean_text_ABC_I23:
  "cleaned_of ''ABC I23'' = ''ABCI23''
   \<and> is_valid_peruvian_plate ''ABCI23''
   \<and> re_match [Letter, Letter, Letter, Letter, Digit, Digit] ''ABCI23''
   \<and> format_plate ''ABCI23'' = ''ABCI23''
   \<and> clean_text ''ABC I23'' = ''ABCI23''
   \<and> variations ''ABCI23'' = [''ABCI23'', ''A8CI23'', ''ABC123'', ''ABCIZ3'']
   \<and> find is_valid_peruvian_plate (variations ''ABCI23'') = Some ''ABCI23''
   \<and> format_plate ''ABC123'' = ''ABC-123''"
  by code_simp

section \<open>The deduplication cache\<close>



lemma cleanup_cache_empty: "cleanup_cache t Map.empty = Map.empty"
  by (simp add: cleanup_cache_def)


lemma strftime_shift: "strftime (t - seconds w) = strftime t - w"
  by (simp add: strftime_def seconds_def)



lemma recent_count_pos:
  "r \<in> set rows \<Longrightarrow> row_plate_text r = pt \<Longrightarrow> row_camera_source r = cs \<Longrightarrow>
   lim < row_timestamp r \<Longrightarrow> 0 < recent_count pt cs lim rows"
  by (auto simp: recent_count_def filter_empty_conv)

lemma accepted_nonblank:
  "add_plate_reading pt cs ip ib w e s = (True, s') \<Longrightarrow> pt \<noteq> [] \<and> strip pt \<noteq> []"
  by (auto simp: add_plate_reading_def split: if_splits)

lemma accepted_state:
  assumes "add_plate_reading pt cs ip ib w e s = (True, s')"
  shows "s' = s\<lparr>plate_cache := (cleanup_cache (sweep_now e) (plate_cache s))(cache_key_of pt cs \<mapsto> now e),
               plates := plates s @
                 [\<lparr>row_plate_text = pt, row_timestamp = strftime (now e),
                   row_camera_source = cs, row_image_path = ip, row_image_base64 = ib\<rparr>]\<rparr>"
  using assms
  by (auto simp: add_plate_reading_def insert_row_def Let_def split: if_splits option.splits)


lemma tier2_reject:
  assumes "pt \<noteq> []" "strip pt \<noteq> []"
    and "cleanup_cache (sweep_now e) (plate_cache s) (cache_key_of pt cs) = None"
    and "\<not> sqlite_error e"
    and "r \<in> set (plates s)" "row_plate_text r = pt" "row_camera_source r = cs"
    and "strftime (now e - seconds w) < row_timestamp r"
  shows "add_plate_reading pt cs ip ib w e s =
         (False, s\<lparr>plate_cache :=
            (cleanup_cache (sweep_now e) (plate_cache s))(cache_key_of pt cs \<mapsto> now e)\<rparr>)"
  using assms recent_count_pos [of r "plates s" pt cs "strftime (now e - seconds w)"]
  by (simp add: add_plate_reading_def Let_def)


subsection \<open>C1: the window\<close>




text \<open>
  Beside C1: what happens to a second call that finds the entry swept. The table decides
  then, on the whole seconds that \<^verbatim>\<open>strftime\<close> keeps, where the cache compares the
  exact \<^verbatim>\<open>total_seconds()\<close>. With a window of 62 seconds, a plate accepted at 0.9 s and
  read again at 62.1 s, 61.2 seconds later, is inserted a second time, though the function
  documents that a plate detected in the last N seconds is not registered; the same at a
  window of 300 seconds, 299.2 seconds apart.
\<close>

lemma table_whole_seconds_accept_inside_window:
  "(let (r1, s1) = add_plate_reading ''ABC123'' ''webcam'' None None 62 (clock_at 900000)
                     initial_state;
        (r2, s2) = add_plate_reading ''ABC123'' ''webcam'' None None 62 (clock_at 62100000) s1
    in r1 \<and> r2 \<and> 62100000 - 900000 < seconds 62 \<and> length (plates s2) = 2)
   \<and> (let (r1, s1) = add_plate_reading ''ABC123'' ''webcam'' None None 300 (clock_at 900000)
                     initial_state;
        (r2, s2) = add_plate_reading ''ABC123'' ''webcam'' None None 300 (clock_at 300100000) s1
    in r1 \<and> r2 \<and> 300100000 - 900000 < seconds 300 \<and> length (plates s2) = 2)"
  by code_simp

subsection \<open>C2: a repeat right after \<^verbatim>\<open>clear_dedup_cache\<close>\<close>

text \<open>
  C2 as written fails: a plate accepted at second 0 with a window of 30 seconds, the cache
  cleared, the plate read again at second 5. The call does not find the key in the cache,
  asks the table, finds the row of second 0 and returns false.
\<close>

theorem clear_then_repeat_counterexample:
  "(let (r1, s1) = add_plate_reading ''ABC123'' ''webcam'' None None 30 (clock_at 0) initial_state;
        (r2, s2) = add_plate_reading ''ABC123'' ''webcam'' None None 30 (clock_at (seconds 5))
                     (clear_dedup_cache s1)
    in r1 \<and> \<not> r2)"
  by code_simp

text \<open>
  C2, amended. After \<^verbatim>\<open>clear_dedup_cache\<close> has emptied the cache (the table is not
  touched), the very next call for a code and source that were accepted, while the second
  of that acceptance is still newer than the current time less the window and the database
  answers, returns false: the table rejects it, and the cache gets the key again, alone,
  with the current time.
\<close>

theorem clear_then_repeat_rejected:
  assumes first: "add_plate_reading code src ip1 ib1 w e1 s0 = (True, s1)"
    and within: "strftime (now e2 - seconds w) < strftime (now e1)"
    and db: "\<not> sqlite_error e2"
  shows "add_plate_reading code src ip2 ib2 w e2 (clear_dedup_cache s1) =
         (False, s1\<lparr>plate_cache := [cache_key_of code src \<mapsto> now e2]\<rparr>)"
proof -
  from first have nb: "code \<noteq> []" "strip code \<noteq> []"
    using accepted_nonblank by blast+
  note s1 = accepted_state [OF first]
  let ?r = "\<lparr>row_plate_text = code, row_timestamp = strftime (now e1),
                   row_camera_source = src, row_image_path = ip1, row_image_base64 = ib1\<rparr>"
  have in_store: "?r \<in> set (plates (clear_dedup_cache s1))"
    by (subst s1) (simp add: clear_dedup_cache_def)
  have absent: "cleanup_cache (sweep_now e2) (plate_cache (clear_dedup_cache s1))
                  (cache_key_of code src) = None"
    by (simp add: clear_dedup_cache_def cleanup_cache_empty)
  have "add_plate_reading code src ip2 ib2 w e2 (clear_dedup_cache s1) =
         (False, (clear_dedup_cache s1)\<lparr>plate_cache :=
            (cleanup_cache (sweep_now e2) (plate_cache (clear_dedup_cache s1)))
              (cache_key_of code src \<mapsto> now e2)\<rparr>)"
    using nb absent db in_store within by (intro tier2_reject [where r = ?r]) auto
  then show ?thesis
    by (simp add: clear_dedup_cache_def cleanup_cache_empty)
qed

text \<open>C2 at the counterexample's input.\<close>

theorem clear_then_repeat_rejected_witness:
  "fst (add_plate_reading ''ABC123'' ''webcam'' None None 30 (clock_at 0) initial_state) = True
   \<and> fst (add_plate_reading ''ABC123'' ''webcam'' None None 30 (clock_at (seconds 5))
         (clear_dedup_cache
           (snd (add_plate_reading ''ABC123'' ''webcam'' None None 30 (clock_at 0) initial_state))))
       = False"
proof -
  let ?c1 = "add_plate_reading ''ABC123'' ''webcam'' None None 30 (clock_at 0) initial_state"
  have r1: "fst ?c1 = True" by code_simp
  then have first: "?c1 = (True, snd ?c1)" by (simp add: prod_eq_iff)
  have within: "strftime (now (clock_at (seconds 5)) - seconds 30) < strftime (now (clock_at 0))"
    by (simp add: clock_at_def strftime_def seconds_def)
  have db: "\<not> sqlite_error (clock_at (seconds 5))" by (simp add: clock_at_def)
  show ?thesis
    unfolding clear_then_repeat_rejected [OF first within db] using r1 by simp
qed

subsection \<open>C3: what the cache gets when the table rejects\<close>

text \<open>
  C3 as written fails in its last part: after a restart over a table with a row of second 0,
  a call at second 10 with a window of 30 seconds returns false, and the cache then holds
  second 10 for the key, the current time, not second 0, the time of the row found.
\<close>

theorem tier2_backfill_counterexample:
  "fst (add_plate_reading ''ABC-123'' ''webcam'' None None 30 (clock_at (seconds 10))
         (restarted_state 0)) = False
   \<and> plate_cache (snd (add_plate_reading ''ABC-123'' ''webcam'' None None 30
         (clock_at (seconds 10)) (restarted_state 0))) ''ABC-123_webcam'' = Some (seconds 10)
   \<and> plate_cache (snd (add_plate_reading ''ABC-123'' ''webcam'' None None 30
         (clock_at (seconds 10)) (restarted_state 0))) ''ABC-123_webcam''
       \<noteq> Some (seconds (row_timestamp (stored_row 0)))"
  by code_simp

text \<open>
  C3, amended. When the key of a code and source is absent from the cache after the sweep,
  the table holds a row of them whose second is newer than the current time less the
  window, and the database answers, the call returns false, leaves the table as it was, and
  enters the key in the cache with the current time.
\<close>

theorem tier2_backfills_current_time:
  assumes nonblank: "code \<noteq> []" "strip code \<noteq> []"
    and absent: "cleanup_cache (sweep_now e) (plate_cache s) (cache_key_of code src) = None"
    and found: "r \<in> set (plates s)" "row_plate_text r = code" "row_camera_source r = src"
      "strftime (now e - seconds w) < row_timestamp r"
    and db: "\<not> sqlite_error e"
  shows "add_plate_reading code src ip ib w e s =
         (False, s\<lparr>plate_cache :=
            (cleanup_cache (sweep_now e) (plate_cache s))(cache_key_of code src \<mapsto> now e)\<rparr>)"
  using assms by (intro tier2_reject) auto

text \<open>C3 after a restart: the row is of second 100, the call of second 120, the window 30.\<close>

theorem tier2_backfills_current_time_witness:
  "add_plate_reading ''ABC-123'' ''webcam'' None None 30 (clock_at (seconds 120))
     (restarted_state 100)
   = (False, (restarted_state 100)\<lparr>plate_cache := [''ABC-123_webcam'' \<mapsto> seconds 120]\<rparr>)"
proof -
  have a: "strip ''ABC-123'' \<noteq> []" by code_simp
  have b: "cleanup_cache (sweep_now (clock_at (seconds 120)))
             (plate_cache (restarted_state 100)) (cache_key_of ''ABC-123'' ''webcam'') = None"
    by (simp add: restarted_state_def cleanup_cache_empty)
  have c: "stored_row 100 \<in> set (plates (restarted_state 100))"
    by (simp add: restarted_state_def)
  have d: "strftime (now (clock_at (seconds 120)) - seconds 30) < row_timestamp (stored_row 100)"
    by (simp add: clock_at_def strftime_def seconds_def stored_row_def)
  have e: "\<not> sqlite_error (clock_at (seconds 120))" by (simp add: clock_at_def)
  have "add_plate_reading ''ABC-123'' ''webcam'' None None 30 (clock_at (seconds 120))
          (restarted_state 100)
      = (False, (restarted_state 100)\<lparr>plate_cache :=
           (cleanup_cache (sweep_now (clock_at (seconds 120))) (plate_cache (restarted_state 100)))
             (cache_key_of ''ABC-123'' ''webcam'' \<mapsto> now (clock_at (seconds 120)))\<rparr>)"
    by (rule tier2_backfills_current_time [OF _ a b c _ _ d e]) (simp_all add: stored_row_def)
  then show ?thesis
    by (simp add: restarted_state_def cleanup_cache_empty cache_key_of_def clock_at_def)
qed

subsection \<open>C5: the sweep\<close>

text \<open>
  What the sweep does remove: of the entries whose age is between nothing and a day,
  those of 61 seconds and more.
\<close>

lemma cleanup_cache_within_a_day:
  assumes "cache key = Some v" and "0 \<le> t - v" and "t - v < seconds 86400"
  shows "(cleanup_cache t cache key = None) = (seconds 61 \<le> t - v)"
proof -
  from assms(2,3) have "0 \<le> (t - v) div 1000000" "(t - v) div 1000000 < 86400"
    by (simp_all add: seconds_def)
  then have "td_seconds (t - v) = (t - v) div 1000000"
    by (simp add: td_seconds_def)
  moreover have "(60 < (t - v) div 1000000) = (seconds 61 \<le> t - v)"
    by (simp add: seconds_def) linarith
  ultimately show ?thesis
    using assms(1) by (simp add: cleanup_cache_def)
qed

text \<open>
  C5, at an entry more than a day old. \<^verbatim>\<open>cleanup_cache\<close> compares the seconds field of
  the age, which starts again at 0 with every whole day: an entry of one day and 30 seconds
  has the field 30 and stays, through the sweep alone and through a call of
  \<^verbatim>\<open>add_plate_reading\<close> for another plate; one of 61 seconds goes.
\<close>

theorem cleanup_cache_keeps_day_old_entry:
  "cleanup_cache (seconds 86430) [''ABC-123_webcam'' \<mapsto> 0] ''ABC-123_webcam'' = Some 0
   \<and> plate_cache (snd (add_plate_reading ''XYZ-789'' ''webcam'' None None 30
        (clock_at (seconds 86430))
        \<lparr>plate_cache = [''ABC-123_webcam'' \<mapsto> 0], plates = [stored_row 0]\<rparr>))
       ''ABC-123_webcam'' = Some 0
   \<and> cleanup_cache (seconds 61) [''ABC-123_webcam'' \<mapsto> 0] ''ABC-123_webcam'' = None"
  by code_simp

section \<open>The camera manager\<close>

lemma selected_select_source:
  "selected (snd (select_source cv source_name s)) = selected s @ [source_name]"
  by (simp add: select_source_def Let_def release_current_source_def
      split: option.splits)

subsection \<open>C9: a read that fails\<close>

text \<open>
  C9. In every call of \<^verbatim>\<open>get_frame\<close> in which the source is open and its read fails,
  \<^verbatim>\<open>select_source\<close> is called exactly once, with the active source's name (the log of
  calls grows by that one entry, and the state is the one this call leaves), and the call
  returns \<^verbatim>\<open>(False, None)\<close> whatever \<^verbatim>\<open>select_source\<close> returned.
\<close>

theorem get_frame_read_failure:
  assumes "current_cap s = Some c" and "isOpened cv c" and "fst (read cv c) = None"
  shows "fst (get_frame cv s) = (False, None)
       \<and> snd (get_frame cv s) =
           snd (select_source cv (active_source s) (s\<lparr>current_cap := Some (snd (read cv c))\<rparr>))
       \<and> selected (snd (get_frame cv s)) = selected s @ [active_source s]"
proof -
  obtain c' where rd: "read cv c = (None, c')"
    using assms(3) by (cases "read cv c") simp
  have gf: "get_frame cv s =
      ((False, None), snd (select_source cv (active_source s) (s\<lparr>current_cap := Some c'\<rparr>)))"
    using assms(1,2) rd by (simp add: get_frame_def)
  show ?thesis
    unfolding gf by (simp add: rd selected_select_source)
qed

text \<open>
  C9 with the webcam open and no frame to read, twice: over the OpenCV whose capture stays
  open, where the reselection succeeds, and over the one whose link is down, where it fails
  and leaves no capture. \<^verbatim>\<open>get_frame\<close> returns \<^verbatim>\<open>(False, None)\<close> both times.
\<close>

theorem get_frame_read_failure_witness:
  "fst (get_frame toy_cv2 (webcam_open [])) = (False, None)
   \<and> selected (snd (get_frame toy_cv2 (webcam_open []))) = [Some ''webcam'']
   \<and> fst (select_source toy_cv2 (Some ''webcam'') (webcam_open [])) = True
   \<and> fst (get_frame dropping_cv2 (webcam_open [])) = (False, None)
   \<and> selected (snd (get_frame dropping_cv2 (webcam_open []))) = [Some ''webcam'']
   \<and> current_cap (snd (get_frame dropping_cv2 (webcam_open []))) = None"
proof -
  have a: "current_cap (webcam_open []) = Some (Inl 0, True, [])"
    by (simp add: webcam_open_def)
  have b: "isOpened toy_cv2 (Inl 0, True, [])" "isOpened dropping_cv2 (Inl 0, True, [])"
    by (simp_all add: toy_cv2_def dropping_cv2_def)
  have c: "fst (read toy_cv2 (Inl 0, True, [])) = None"
    "fst (read dropping_cv2 (Inl 0, True, [])) = None"
    by (simp_all add: toy_cv2_def dropping_cv2_def)
  have d: "fst (select_source toy_cv2 (Some ''webcam'') (webcam_open [])) = True" by code_simp
  have e: "current_cap (snd (get_frame dropping_cv2 (webcam_open []))) = None" by code_simp
  have f: "selected (webcam_open []) @ [active_source (webcam_open [])] = [Some ''webcam'']"
    by (simp add: webcam_open_def)
  note toy = get_frame_read_failure [OF a b(1) c(1)]
  note dropping = get_frame_read_failure [OF a b(2) c(2)]
  from toy have t1: "fst (get_frame toy_cv2 (webcam_open [])) = (False, None)" by blast
  from toy have t2: "selected (snd (get_frame toy_cv2 (webcam_open []))) = [Some ''webcam'']"
    unfolding f by blast
  from dropping have d1: "fst (get_frame dropping_cv2 (webcam_open [])) = (False, None)" by blast
  from dropping have d2:
    "selected (snd (get_frame dropping_cv2 (webcam_open []))) = [Some ''webcam'']"
    unfolding f by blast
  from t1 t2 d d1 d2 e show ?thesis by blast
qed

subsection \<open>C10: a source that is not configured\<close>

text \<open>
  C10. \<^verbatim>\<open>select_source\<close> with a name that is not a key of \<^verbatim>\<open>CAMERA_SOURCES\<close>
  returns false and changes nothing but the log of its calls: whatever source is open stays
  open and active, and no capture is released.
\<close>

theorem select_source_unknown:
  assumes "source_name \<notin> dom CAMERA_SOURCES"
  shows "select_source cv (Some source_name) s =
           (False, s\<lparr>selected := selected s @ [Some source_name]\<rparr>)"
  using assms by (simp add: select_source_def Let_def domIff)

text \<open>C10 with the webcam open and one frame waiting, at the name \<^verbatim>\<open>usb_cam\<close>.\<close>

theorem select_source_unknown_witness:
  "''usb_cam'' \<notin> dom CAMERA_SOURCES
   \<and> fst (select_source toy_cv2 (Some ''usb_cam'') (webcam_open [7])) = False
   \<and> current_cap (snd (select_source toy_cv2 (Some ''usb_cam'') (webcam_open [7])))
       = Some (Inl 0, True, [7])
   \<and> active_source (snd (select_source toy_cv2 (Some ''usb_cam'') (webcam_open [7])))
       = Some ''webcam''
   \<and> released (snd (select_source toy_cv2 (Some ''usb_cam'') (webcam_open [7]))) = []"
proof -
  have a: "''usb_cam'' \<notin> dom CAMERA_SOURCES"
    by (simp add: CAMERA_SOURCES_def)
  show ?thesis
    unfolding select_source_unknown [OF a] using a by (simp add: webcam_open_def)
qed

end
